theory Spec2Isabelle
  imports Complex_Main "HOL-Library.Sublist"
begin

section \<open>The data loader built from a sampling function\<close>

text \<open>
  The source is \<^verbatim>\<open>data/from_map.py\<close>: the class \<^verbatim>\<open>DataLoaderFromMap\<close> with its
  constructor and its method \<^verbatim>\<open>loadData\<close>. Python integers are modelled as \<open>int\<close>,
  exceptions as the left summand of a sum type, the loader object and the effects of
  the sampling callback as an explicit state.
\<close>

subsection \<open>Python values and errors\<close>

datatype error = TypeError | ValueError | InvalidArgumentError | SamplerError

text \<open>The argument \<^verbatim>\<open>shape=(N, dim)\<close> handed to the callback: a pair of integers.\<close>

type_synonym shape = "int \<times> int"

text \<open>
  A tensor: its dimensions and its entries in row-major order. A tensor is well formed
  when it has as many entries as its dimensions say.
\<close>

datatype 'a tensor = Tensor (dims: "nat list") (flat: "'a list")

definition wf_tensor :: "'a tensor \<Rightarrow> bool" where
  "wf_tensor t = (length (flat t) = prod_list (dims t))"

text \<open>
  The value stored in the field \<^verbatim>\<open>get_X0\<close>: either \<^verbatim>\<open>None\<close> (the default), or a
  callable. A callable has the names of the keyword arguments it accepts and a body;
  the body reads and updates the sampler's own state \<open>'w\<close> (a random generator, say)
  and returns an array or raises.
\<close>

datatype ('w, 'a) pyobj =
    PyNone
  | PyCallable (kwnames: "string list") (body: "shape \<Rightarrow> 'w \<Rightarrow> (error + 'a tensor) \<times> 'w")

subsection \<open>The loader object\<close>

record DatasetLoader =
  N_train :: int
  N_test :: int
  batch_size :: int

record ('w, 'a) DataLoaderFromMap = DatasetLoader +
  get_X0 :: "('w, 'a) pyobj"
  dim :: int

text \<open>
  Modelled from the spec: the base class \<^verbatim>\<open>DatasetLoader\<close> of \<^verbatim>\<open>data/base.py\<close> is
  not among the sources. The spec calls it the base class defining the
  \<^verbatim>\<open>(N_train, N_test, batch_size)\<close> contract, and states that there is no data
  validation: its constructor stores the three values under these names.
\<close>

definition DatasetLoader_init :: "int \<Rightarrow> int \<Rightarrow> int \<Rightarrow> error + DatasetLoader" where
  "DatasetLoader_init n_train n_test bs =
     Inr \<lparr>N_train = n_train, N_test = n_test, batch_size = bs\<rparr>"

text \<open>An argument left out of a Python call takes its default value.\<close>

definition or_default :: "'v option \<Rightarrow> 'v \<Rightarrow> 'v" where
  "or_default arg d = (case arg of None \<Rightarrow> d | Some v \<Rightarrow> v)"

text \<open>
  \<^verbatim>\<open>__init__(self, N_train = 100, N_test = 1000, batch_size = 512, get_X0 = None, dim = 1)\<close>:
  each argument is \<open>None\<close> when the caller leaves it out.
\<close>

definition DataLoaderFromMap_init ::
  "int option \<Rightarrow> int option \<Rightarrow> int option \<Rightarrow> ('w, 'a) pyobj option \<Rightarrow> int option
   \<Rightarrow> error + ('w, 'a) DataLoaderFromMap" where
  "DataLoaderFromMap_init a_N_train a_N_test a_batch_size a_get_X0 a_dim =
     (let n_train = or_default a_N_train 100;
          n_test = or_default a_N_test 1000;
          bs = or_default a_batch_size 512;
          g = or_default a_get_X0 PyNone;
          d = or_default a_dim 1
      in case DatasetLoader_init n_train n_test bs of
           Inl e \<Rightarrow> Inl e
         | Inr base \<Rightarrow> Inr (DatasetLoader.extend base \<lparr>get_X0 = g, dim = d\<rparr>))"

subsection \<open>The operations of the tensor framework\<close>

text \<open>
  The framework is an external library. The definitions of this subsection model the
  documented behaviour of the five things \<^verbatim>\<open>loadData\<close> uses:
  \<^verbatim>\<open>tf.zeros\<close>, \<^verbatim>\<open>tf.data.Dataset.from_tensor_slices\<close>, \<^verbatim>\<open>Dataset.batch\<close> (with
  its default \<^verbatim>\<open>drop_remainder=False\<close>), \<^verbatim>\<open>Dataset.prefetch\<close> and
  \<^verbatim>\<open>tf.data.AUTOTUNE\<close>. A dataset is the sequence of its elements; here every
  element is a pair of tensors.
\<close>

type_synonym ('a, 'z) dataset = "('a tensor \<times> 'z tensor) list"

definition tf_zeros :: "int list \<Rightarrow> error + ('z::zero) tensor" where
  "tf_zeros sh =
     (if list_ex (\<lambda>d. d < 0) sh then Inl InvalidArgumentError
      else Inr (Tensor (map nat sh) (replicate (prod_list (map nat sh)) 0)))"

text \<open>Cutting \<open>n\<close> consecutive pieces of \<open>m\<close> entries each off a list.\<close>

fun split_rows :: "nat \<Rightarrow> nat \<Rightarrow> 'a list \<Rightarrow> 'a list list" where
  "split_rows 0 m xs = []"
| "split_rows (Suc n) m xs = take m xs # split_rows n m (drop m xs)"

text \<open>The slices of a tensor along its first axis.\<close>

definition slices :: "'a tensor \<Rightarrow> 'a tensor list" where
  "slices t =
     (case dims t of
        [] \<Rightarrow> []
      | n # sh \<Rightarrow> map (Tensor sh) (split_rows n (prod_list sh) (flat t)))"

text \<open>
  \<^verbatim>\<open>from_tensor_slices((x, z))\<close>: both components need a first axis, of the same
  size; the elements are the pairs of slices.
\<close>

definition from_tensor_slices :: "'a tensor \<times> 'z tensor \<Rightarrow> error + ('a, 'z) dataset" where
  "from_tensor_slices xz =
     (case xz of (x, z) \<Rightarrow>
        (case dims x of
           [] \<Rightarrow> Inl ValueError
         | n # _ \<Rightarrow>
            (case dims z of
               [] \<Rightarrow> Inl ValueError
             | m # _ \<Rightarrow> if n = m then Inr (zip (slices x) (slices z)) else Inl ValueError)))"

text \<open>Consecutive groups of \<open>n\<close> elements; the last group may be shorter.\<close>

function chunks :: "nat \<Rightarrow> 'e list \<Rightarrow> 'e list list" where
  "chunks n xs = (if n = 0 \<or> xs = [] then [] else take n xs # chunks n (drop n xs))"
  by pat_completeness auto
termination
  by (relation "measure (\<lambda>(n, xs). length xs)") auto

text \<open>Stacking tensors of one shape along a new first axis.\<close>

definition stack :: "'a tensor list \<Rightarrow> 'a tensor" where
  "stack ts =
     (case ts of
        [] \<Rightarrow> Tensor [0] []
      | t # _ \<Rightarrow> Tensor (length ts # dims t) (concat (map flat ts)))"

definition stack_pairs :: "('a tensor \<times> 'z tensor) list \<Rightarrow> 'a tensor \<times> 'z tensor" where
  "stack_pairs es = (stack (map fst es), stack (map snd es))"

definition batch :: "('a, 'z) dataset \<Rightarrow> int \<Rightarrow> error + ('a, 'z) dataset" where
  "batch ds bs =
     (if bs \<le> 0 then Inl InvalidArgumentError
      else Inr (map stack_pairs (chunks (nat bs) ds)))"

definition AUTOTUNE :: int where
  "AUTOTUNE = - 1"

text \<open>Prefetching buffers elements ahead of time; the sequence of elements is the same.\<close>

definition prefetch :: "('a, 'z) dataset \<Rightarrow> int \<Rightarrow> error + ('a, 'z) dataset" where
  "prefetch ds buffer_size =
     (if buffer_size < - 1 then Inl InvalidArgumentError else Inr ds)"

text \<open>\<^verbatim>\<open>Dataset.unbatch\<close>, the framework's inverse of batching; used to observe a pipeline.\<close>

definition unbatch :: "('a, 'z) dataset \<Rightarrow> ('a, 'z) dataset" where
  "unbatch ds = concat (map (\<lambda>b. zip (slices (fst b)) (slices (snd b))) ds)"

definition and_then :: "error + 'x \<Rightarrow> ('x \<Rightarrow> error + 'y) \<Rightarrow> error + 'y" where
  "and_then r k = (case r of Inl e \<Rightarrow> Inl e | Inr v \<Rightarrow> k v)"

subsection \<open>The state and the method loadData\<close>

text \<open>
  The state a call of \<^verbatim>\<open>loadData\<close> runs in: the loader object \<^verbatim>\<open>self\<close>, the state of
  the sampler, and a log of the shape arguments the callback has been invoked with
  (the log is not in the source; it records the invocations). The callback has no
  reference to the loader: it reads and updates only its own state.
\<close>

record ('w, 'a) state =
  this :: "('w, 'a) DataLoaderFromMap"
  calls :: "shape list"
  sampler :: 'w

text \<open>
  The call \<^verbatim>\<open>g(shape=sh)\<close>: \<^verbatim>\<open>None\<close> is not callable, and a callable that does not
  accept the keyword \<^verbatim>\<open>shape\<close> rejects the call before its body runs.
\<close>

definition py_call_shape ::
  "('w, 'a) pyobj \<Rightarrow> shape \<Rightarrow> ('w, 'a) state \<Rightarrow> (error + 'a tensor) \<times> ('w, 'a) state" where
  "py_call_shape g sh s =
     (case g of
        PyNone \<Rightarrow> (Inl TypeError, s)
      | PyCallable ks f \<Rightarrow>
          if ''shape'' \<in> set ks
          then (case f sh (sampler s) of
                  (r, w') \<Rightarrow> (r, s\<lparr>calls := calls s @ [sh], sampler := w'\<rparr>))
          else (Inl TypeError, s))"

text \<open>
  \<^verbatim>\<open>loadData\<close>, statement by statement: the training pipeline is built completely
  (callback, zeros, slicing, batching, prefetching) before the callback is invoked for
  the test pipeline; the first exception ends the call. The entries of \<^verbatim>\<open>tf.zeros\<close>
  are floating-point zeros; only the value \<open>0\<close> occurs, and it is taken in \<open>real\<close>.
\<close>

definition loadData ::
  "('w, 'a) state \<Rightarrow>
   (error + (('a, real) dataset \<times> ('a, real) dataset)) \<times> ('w, 'a) state" where
  "loadData s0 =
     (case py_call_shape (get_X0 (this s0)) (N_train (this s0), dim (this s0)) s0 of
        (Inl e, s1) \<Rightarrow> (Inl e, s1)
      | (Inr x, s1) \<Rightarrow>
     (case and_then (tf_zeros [N_train (this s1), 1]) (\<lambda>z.
           and_then (from_tensor_slices (x, z)) (\<lambda>d.
           and_then (batch d (batch_size (this s1))) (\<lambda>b.
           prefetch b AUTOTUNE))) of
        Inl e \<Rightarrow> (Inl e, s1)
      | Inr ds \<Rightarrow>
     (case py_call_shape (get_X0 (this s1)) (N_test (this s1), dim (this s1)) s1 of
        (Inl e, s2) \<Rightarrow> (Inl e, s2)
      | (Inr x', s2) \<Rightarrow>
     (case and_then (tf_zeros [N_test (this s2), 1]) (\<lambda>z.
           and_then (from_tensor_slices (x', z)) (\<lambda>d.
           and_then (batch d (batch_size (this s2))) (\<lambda>b.
           prefetch b AUTOTUNE))) of
        Inl e \<Rightarrow> (Inl e, s2)
      | Inr ds_test \<Rightarrow> (Inr (ds, ds_test), s2)))))"

subsection \<open>The specification's pipeline\<close>

text \<open>
  The spec's sentence, for one array \<open>x\<close> and one size \<open>n\<close>: a batched-and-prefetched
  sequence over \<open>x\<close> paired with zeros.
\<close>

definition zeros_paired_pipeline ::
  "'a tensor \<Rightarrow> int \<Rightarrow> int \<Rightarrow> error + ('a, real) dataset" where
  "zeros_paired_pipeline x n bs =
     and_then (tf_zeros [n, 1]) (\<lambda>z.
     and_then (from_tensor_slices (x, z)) (\<lambda>d.
     and_then (batch d bs) (\<lambda>b.
     prefetch b AUTOTUNE)))"

text \<open>The zeros of shape \<open>(n, 1)\<close>.\<close>

definition zeros_column :: "int \<Rightarrow> real tensor" where
  "zeros_column n = Tensor [nat n, 1] (replicate (nat n) 0)"

text \<open>The elements before batching: the slices of \<open>x\<close> paired with the rows of zeros.\<close>

definition elements :: "'a tensor \<Rightarrow> int \<Rightarrow> ('a, real) dataset" where
  "elements x n = zip (slices x) (slices (zeros_column n))"

subsection \<open>A callback that holds the loader\<close>

text \<open>
  In Python the callable stored in \<^verbatim>\<open>get_X0\<close> may hold a reference to the loader and
  assign its fields, and \<^verbatim>\<open>loadData\<close> reads the fields again after each invocation.
  The definitions of this subsection give the body of the callable the loader's four
  integer fields next to its own state. The state above is the case of a callable
  without such a reference. Assigning \<^verbatim>\<open>get_X0\<close> itself from within the callable is
  not modelled.
\<close>

text \<open>The four integer fields of the loader, as the callback sees them.\<close>

record attributes =
  at_N_train :: int
  at_N_test :: int
  at_batch_size :: int
  at_dim :: int

definition attributes_of :: "('w, 'a) DataLoaderFromMap \<Rightarrow> attributes" where
  "attributes_of l =
     \<lparr>at_N_train = N_train l, at_N_test = N_test l, at_batch_size = batch_size l, at_dim = dim l\<rparr>"

definition assign_attributes ::
  "attributes \<Rightarrow> ('w, 'a) DataLoaderFromMap \<Rightarrow> ('w, 'a) DataLoaderFromMap" where
  "assign_attributes a l =
     l\<lparr>N_train := at_N_train a, N_test := at_N_test a, batch_size := at_batch_size a,
       dim := at_dim a\<rparr>"

text \<open>The state: the loader, the log of invocations, and the callback's own state.\<close>

record ('v, 'a) shared_state =
  shared_this :: "(attributes \<times> 'v, 'a) DataLoaderFromMap"
  shared_calls :: "shape list"
  shared_sampler :: 'v

text \<open>
  The call \<^verbatim>\<open>g(shape=sh)\<close>: the body runs on the loader's fields and its own state,
  and the fields it leaves are the loader's fields afterwards.
\<close>

definition py_call_shape_shared ::
  "(attributes \<times> 'v, 'a) pyobj \<Rightarrow> shape \<Rightarrow> ('v, 'a) shared_state
   \<Rightarrow> (error + 'a tensor) \<times> ('v, 'a) shared_state" where
  "py_call_shape_shared g sh s =
     (case g of
        PyNone \<Rightarrow> (Inl TypeError, s)
      | PyCallable ks f \<Rightarrow>
          if ''shape'' \<in> set ks
          then (case f sh (attributes_of (shared_this s), shared_sampler s) of
                  (r, (a', v')) \<Rightarrow>
                    (r, s\<lparr>shared_this := assign_attributes a' (shared_this s),
                          shared_calls := shared_calls s @ [sh],
                          shared_sampler := v'\<rparr>))
          else (Inl TypeError, s))"

text \<open>
  \<^verbatim>\<open>loadData\<close> once more, statement by statement, over this state: every
  \<^verbatim>\<open>self.N_train\<close>, \<^verbatim>\<open>self.N_test\<close>, \<^verbatim>\<open>self.batch_size\<close> and \<^verbatim>\<open>self.dim\<close> is read
  where the source reads it, after the invocations that precede it.
\<close>

definition loadData_shared ::
  "('v, 'a) shared_state \<Rightarrow>
   (error + (('a, real) dataset \<times> ('a, real) dataset)) \<times> ('v, 'a) shared_state" where
  "loadData_shared s0 =
     (case py_call_shape_shared (get_X0 (shared_this s0))
             (N_train (shared_this s0), dim (shared_this s0)) s0 of
        (Inl e, s1) \<Rightarrow> (Inl e, s1)
      | (Inr x, s1) \<Rightarrow>
     (case and_then (tf_zeros [N_train (shared_this s1), 1]) (\<lambda>z.
           and_then (from_tensor_slices (x, z)) (\<lambda>d.
           and_then (batch d (batch_size (shared_this s1))) (\<lambda>b.
           prefetch b AUTOTUNE))) of
        Inl e \<Rightarrow> (Inl e, s1)
      | Inr ds \<Rightarrow>
     (case py_call_shape_shared (get_X0 (shared_this s1))
             (N_test (shared_this s1), dim (shared_this s1)) s1 of
        (Inl e, s2) \<Rightarrow> (Inl e, s2)
      | (Inr x', s2) \<Rightarrow>
     (case and_then (tf_zeros [N_test (shared_this s2), 1]) (\<lambda>z.
           and_then (from_tensor_slices (x', z)) (\<lambda>d.
           and_then (batch d (batch_size (shared_this s2))) (\<lambda>b.
           prefetch b AUTOTUNE))) of
        Inl e \<Rightarrow> (Inl e, s2)
      | Inr ds_test \<Rightarrow> (Inr (ds, ds_test), s2)))))"

text \<open>A callback that leaves the loader's fields as they are, whatever it is called with.\<close>

definition leaves_loader :: "(attributes \<times> 'v, 'a) pyobj \<Rightarrow> bool" where
  "leaves_loader g =
     (case g of
        PyNone \<Rightarrow> True
      | PyCallable ks f \<Rightarrow> (\<forall>sh a v. fst (snd (f sh (a, v))) = a))"

text \<open>A callable of the state above, as a callable that holds the loader and leaves it alone.\<close>

definition share_callback :: "('v, 'a) pyobj \<Rightarrow> (attributes \<times> 'v, 'a) pyobj" where
  "share_callback g =
     (case g of
        PyNone \<Rightarrow> PyNone
      | PyCallable ks f \<Rightarrow>
          PyCallable ks (\<lambda>sh av. case av of (a, v) \<Rightarrow> (case f sh v of (r, v') \<Rightarrow> (r, (a, v')))))"

definition share_loader ::
  "('v, 'a) DataLoaderFromMap \<Rightarrow> (attributes \<times> 'v, 'a) DataLoaderFromMap" where
  "share_loader l =
     \<lparr>N_train = N_train l, N_test = N_test l, batch_size = batch_size l,
      get_X0 = share_callback (get_X0 l), dim = dim l\<rparr>"

definition share_state :: "('v, 'a) state \<Rightarrow> ('v, 'a) shared_state" where
  "share_state s =
     \<lparr>shared_this = share_loader (this s), shared_calls = calls s, shared_sampler = sampler s\<rparr>"

subsection \<open>Concrete loaders\<close>

text \<open>
  A sampler that enumerates the integers: its state is the next integer to hand out.
  It raises on a negative size.
\<close>

definition counting_sampler :: "shape \<Rightarrow> nat \<Rightarrow> (error + int tensor) \<times> nat" where
  "counting_sampler sh w =
     (case sh of (n, d) \<Rightarrow>
        if n < 0 \<or> d < 0 then (Inl SamplerError, w)
        else (Inr (Tensor [nat n, nat d] (map (\<lambda>i. int (w + i)) [0..<nat n * nat d])),
              w + nat n * nat d))"

definition start_state :: "(nat, int) DataLoaderFromMap \<Rightarrow> (nat, int) state" where
  "start_state l = \<lparr>this = l, calls = [], sampler = 0\<rparr>"

definition small_loader :: "(nat, int) DataLoaderFromMap" where
  "small_loader = \<lparr>N_train = 3, N_test = 5, batch_size = 2,
     get_X0 = PyCallable [''shape''] counting_sampler, dim = 2\<rparr>"



definition default_loader :: "(nat, int) DataLoaderFromMap" where
  "default_loader = \<lparr>N_train = 100, N_test = 1000, batch_size = 512,
     get_X0 = PyNone, dim = 1\<rparr>"

text \<open>
  A sampler that holds the loader: it enumerates the integers as \<open>counting_sampler\<close>
  does, and sets the loader's \<^verbatim>\<open>N_test\<close> to 4 on every call.
\<close>

definition fixing_sampler ::
  "shape \<Rightarrow> attributes \<times> nat \<Rightarrow> (error + int tensor) \<times> (attributes \<times> nat)" where
  "fixing_sampler sh av =
     (case av of (a, w) \<Rightarrow>
        (case counting_sampler sh w of (r, w') \<Rightarrow> (r, (a\<lparr>at_N_test := 4\<rparr>, w'))))"

definition fixing_loader :: "(attributes \<times> nat, int) DataLoaderFromMap" where
  "fixing_loader = \<lparr>N_train = 3, N_test = 5, batch_size = 2,
     get_X0 = PyCallable [''shape''] fixing_sampler, dim = 2\<rparr>"

definition shared_start ::
  "(attributes \<times> nat, int) DataLoaderFromMap \<Rightarrow> (nat, int) shared_state" where
  "shared_start l = \<lparr>shared_this = l, shared_calls = [], shared_sampler = 0\<rparr>"

section \<open>Properties\<close>

subsection \<open>Chunks and rows\<close>

lemma chunks_Nil: "chunks n [] = []"
  by simp

lemma chunks_Cons:
  "0 < n \<Longrightarrow> xs \<noteq> [] \<Longrightarrow> chunks n xs = take n xs # chunks n (drop n xs)"
  by simp

declare chunks.simps [simp del]

lemma concat_chunks: "0 < n \<Longrightarrow> concat (chunks n xs) = xs"
proof (induction n xs rule: chunks.induct)
  case (1 n xs)
  show ?case
  proof (cases "xs = []")
    case True
    then show ?thesis by (simp add: chunks_Nil)
  next
    case False
    with 1 show ?thesis by (simp add: chunks_Cons)
  qed
qed


lemma chunks_elem: "0 < n \<Longrightarrow> c \<in> set (chunks n xs) \<Longrightarrow> c \<noteq> [] \<and> length c \<le> n"
proof (induction n xs rule: chunks.induct)
  case (1 n xs)
  show ?case
  proof (cases "xs = []")
    case True
    with 1(3) show ?thesis by (simp add: chunks_Nil)
  next
    case False
    with 1 show ?thesis by (auto simp add: chunks_Cons)
  qed
qed

lemma chunks_subset: "0 < n \<Longrightarrow> c \<in> set (chunks n xs) \<Longrightarrow> set c \<subseteq> set xs"
proof -
  assume "0 < n" and c: "c \<in> set (chunks n xs)"
  then have "concat (chunks n xs) = xs" by (simp add: concat_chunks)
  then have "set xs = (\<Union>c\<in>set (chunks n xs). set c)" by (metis set_concat)
  with c show ?thesis by auto
qed



lemma length_split_rows: "length (split_rows n m xs) = n"
  by (induction n arbitrary: xs) auto

lemma split_rows_concat:
  "\<forall>r\<in>set rs. length r = m \<Longrightarrow> split_rows (length rs) m (concat rs) = rs"
  by (induction rs) auto

lemma split_rows_lengths:
  "length xs = n * m \<Longrightarrow> r \<in> set (split_rows n m xs) \<Longrightarrow> length r = m"
proof (induction n arbitrary: xs)
  case 0
  then show ?case by simp
next
  case (Suc n)
  have dl: "length (drop m xs) = n * m"
    using Suc.prems(1) by simp
  from Suc.prems(2) consider "r = take m xs" | "r \<in> set (split_rows n m (drop m xs))"
    by auto
  then show ?case
  proof cases
    case 1
    with Suc.prems(1) show ?thesis by simp
  next
    case 2
    with dl show ?thesis by (rule Suc.IH)
  qed
qed

lemma concat_split_rows:
  "length xs = n * m \<Longrightarrow> concat (split_rows n m xs) = xs"
  by (induction n arbitrary: xs) auto

lemma length_slices: "length (slices t) = (case dims t of [] \<Rightarrow> 0 | n # _ \<Rightarrow> n)"
  by (simp add: slices_def length_split_rows split: list.splits)

lemma slices_wf:
  "wf_tensor u \<and> dims u = tl (dims t)" if "wf_tensor t" "u \<in> set (slices t)"
proof (cases "dims t")
  case Nil
  then show ?thesis
    using that by (simp add: slices_def)
next
  case (Cons n sh)
  with that obtain r where r: "r \<in> set (split_rows n (prod_list sh) (flat t))" "u = Tensor sh r"
    by (auto simp: slices_def)
  have "length (flat t) = n * prod_list sh"
    using that(1) Cons by (simp add: wf_tensor_def)
  then have "length r = prod_list sh"
    using r(1) by (rule split_rows_lengths)
  with r(2) Cons show ?thesis
    by (simp add: wf_tensor_def)
qed

lemma slices_stack:
  assumes "ts \<noteq> []" and "\<forall>u\<in>set ts. wf_tensor u \<and> dims u = sh"
  shows "slices (stack ts) = ts"
proof -
  from assms obtain t ts' where ts: "ts = t # ts'" by (cases ts) auto
  with assms(2) have sh: "dims t = sh" by simp
  have "\<forall>r\<in>set (map flat ts). length r = prod_list sh"
    using assms(2) by (auto simp: wf_tensor_def)
  then have "split_rows (length (map flat ts)) (prod_list sh) (concat (map flat ts)) = map flat ts"
    by (rule split_rows_concat)
  then have "map (Tensor sh) (split_rows (length ts) (prod_list sh) (concat (map flat ts)))
             = map (\<lambda>u. Tensor sh (flat u)) ts"
    by simp
  also have "\<dots> = ts"
    using assms(2) by (induction ts) auto
  finally show ?thesis
    using ts sh by (simp add: stack_def slices_def)
qed


lemma slices_dims: "u \<in> set (slices t) \<Longrightarrow> dims u = tl (dims t)"
  by (cases "dims t") (auto simp: slices_def)

lemma length_slices_stack: "ts \<noteq> [] \<Longrightarrow> length (slices (stack ts)) = length ts"
  by (cases ts) (simp_all add: length_slices stack_def)

lemma split_rows_replicate1: "split_rows n (Suc 0) (replicate n v) = replicate n [v]"
  by (induction n) auto

subsection \<open>The pipeline over an array paired with zeros\<close>

lemma tf_zeros_column:
  "tf_zeros [n, 1] = (if n < 0 then Inl InvalidArgumentError else Inr (zeros_column n))"
  by (simp add: tf_zeros_def zeros_column_def)

lemma slices_zeros_column: "slices (zeros_column n) = replicate (nat n) (Tensor [1] [0])"
  by (simp add: slices_def zeros_column_def split_rows_replicate1)

lemma wf_zero_row: "wf_tensor (Tensor [1] [0::real])"
  by (simp add: wf_tensor_def)

lemma pipeline_Inr_iff:
  "zeros_paired_pipeline x n bs = Inr ds \<longleftrightarrow>
     0 \<le> n \<and> 0 < bs \<and> (\<exists>sh. dims x = nat n # sh) \<and>
     ds = map stack_pairs (chunks (nat bs) (elements x n))"
  by (auto simp: zeros_paired_pipeline_def and_then_def tf_zeros_column from_tensor_slices_def
      batch_def prefetch_def AUTOTUNE_def elements_def zeros_column_def
      split: list.splits if_splits)



lemma elements_fst: "e \<in> set (elements x n) \<Longrightarrow> dims (fst e) = tl (dims x)"
  by (cases e) (auto simp: elements_def dest!: set_zip_leftD slices_dims)

lemma elements_fst_wf: "wf_tensor x \<Longrightarrow> e \<in> set (elements x n) \<Longrightarrow> wf_tensor (fst e)"
  by (cases e) (auto simp: elements_def dest!: set_zip_leftD dest: slices_wf)

lemma elements_snd: "e \<in> set (elements x n) \<Longrightarrow> snd e = Tensor [1] [0]"
  by (cases e) (auto simp: elements_def slices_zeros_column dest!: set_zip_rightD)

lemma map_fst_elements: "dims x = nat n # sh \<Longrightarrow> map fst (elements x n) = slices x"
  by (simp add: elements_def length_slices slices_zeros_column)

lemma map_snd_elements:
  "dims x = nat n # sh \<Longrightarrow> map snd (elements x n) = slices (zeros_column n)"
  by (simp add: elements_def length_slices slices_zeros_column)

lemma stack_zero_rows:
  "0 < k \<Longrightarrow> stack (replicate k (Tensor [1] [0::real])) = Tensor [k, 1] (replicate k 0)"
proof -
  assume "0 < k"
  then obtain j where k: "k = Suc j" by (cases k) auto
  have "concat (replicate k [0::real]) = replicate k 0"
    by (induction k) auto
  with k show ?thesis by (simp add: stack_def)
qed


lemma pipeline_batch:
  assumes "zeros_paired_pipeline x n bs = Inr ds" and "b \<in> set ds"
  shows "\<exists>k. 0 < k \<and> k \<le> nat bs \<and> dims (fst b) = k # tl (dims x) \<and>
             snd b = Tensor [k, 1] (replicate k 0)"
proof -
  from assms(1) have bs: "0 < nat bs"
    and ds: "ds = map stack_pairs (chunks (nat bs) (elements x n))"
    by (auto simp: pipeline_Inr_iff)
  from assms(2) ds obtain c where c: "c \<in> set (chunks (nat bs) (elements x n))"
    and b: "b = stack_pairs c"
    by auto
  from chunks_elem [OF bs c] have ne: "c \<noteq> []" and le: "length c \<le> nat bs"
    by simp_all
  from bs c have sub: "set c \<subseteq> set (elements x n)"
    by (rule chunks_subset)
  from ne obtain e c' where cc: "c = e # c'" by (cases c) auto
  with sub have "dims (fst e) = tl (dims x)"
    by (auto intro: elements_fst)
  then have 1: "dims (fst b) = length c # tl (dims x)"
    by (simp add: b cc stack_pairs_def stack_def)
  have "\<forall>e\<in>set c. snd e = Tensor [1] [0]"
    using sub elements_snd by blast
  then have "map snd c = replicate (length c) (Tensor [1] [0])"
    by (intro replicate_eqI) auto
  moreover have "stack (replicate (length c) (Tensor [1] [0::real]))
                   = Tensor [length c, 1] (replicate (length c) 0)"
    using ne by (intro stack_zero_rows) simp
  ultimately have 2: "snd b = Tensor [length c, 1] (replicate (length c) 0)"
    by (simp add: b stack_pairs_def)
  from ne le 1 2 show ?thesis by auto
qed

lemma unbatch_map_stack_pairs:
  assumes "\<forall>c\<in>set cs. c \<noteq> [] \<and> (\<forall>e\<in>set c. wf_tensor (fst e) \<and> dims (fst e) = sh
             \<and> wf_tensor (snd e) \<and> dims (snd e) = sh')"
  shows "unbatch (map stack_pairs cs) = concat cs"
proof -
  have "zip (slices (fst (stack_pairs c))) (slices (snd (stack_pairs c))) = c" if "c \<in> set cs" for c
  proof -
    from that assms have ne: "c \<noteq> []"
      and l: "\<forall>u\<in>set (map fst c). wf_tensor u \<and> dims u = sh"
      and r: "\<forall>u\<in>set (map snd c). wf_tensor u \<and> dims u = sh'"
      by auto
    have "slices (stack (map fst c)) = map fst c"
      using ne l by (intro slices_stack) auto
    moreover have "slices (stack (map snd c)) = map snd c"
      using ne r by (intro slices_stack) auto
    ultimately show ?thesis
      by (simp add: stack_pairs_def zip_map_fst_snd)
  qed
  then have "map (\<lambda>b. zip (slices (fst b)) (slices (snd b))) (map stack_pairs cs) = cs"
    by (simp add: map_idI)
  then show ?thesis by (simp add: unbatch_def)
qed

lemma pipeline_unbatch:
  assumes "zeros_paired_pipeline x n bs = Inr ds" and "wf_tensor x"
  shows "unbatch ds = zip (slices x) (slices (zeros_column n))"
proof -
  from assms(1) have bs: "0 < nat bs"
    and ds: "ds = map stack_pairs (chunks (nat bs) (elements x n))"
    by (auto simp: pipeline_Inr_iff)
  have "\<forall>c\<in>set (chunks (nat bs) (elements x n)). c \<noteq> [] \<and>
          (\<forall>e\<in>set c. wf_tensor (fst e) \<and> dims (fst e) = tl (dims x)
             \<and> wf_tensor (snd e) \<and> dims (snd e) = [1])"
  proof
    fix c
    assume c: "c \<in> set (chunks (nat bs) (elements x n))"
    from chunks_elem [OF bs c] have ne: "c \<noteq> []" by simp
    have "wf_tensor (fst e) \<and> dims (fst e) = tl (dims x)
            \<and> wf_tensor (snd e) \<and> dims (snd e) = [1]" if e: "e \<in> set c" for e
    proof -
      from chunks_subset [OF bs c] e have el: "e \<in> set (elements x n)"
        by auto
      from el assms(2) have "wf_tensor (fst e)" by (auto intro: elements_fst_wf)
      moreover from el have "dims (fst e) = tl (dims x)" by (rule elements_fst)
      moreover from el have "wf_tensor (snd e)" using wf_zero_row by (simp add: elements_snd)
      moreover from el have "dims (snd e) = [1]" by (simp add: elements_snd)
      ultimately show ?thesis by simp
    qed
    with ne show "c \<noteq> [] \<and>
          (\<forall>e\<in>set c. wf_tensor (fst e) \<and> dims (fst e) = tl (dims x)
             \<and> wf_tensor (snd e) \<and> dims (snd e) = [1])"
      by simp
  qed
  then have "unbatch ds = concat (chunks (nat bs) (elements x n))"
    unfolding ds by (rule unbatch_map_stack_pairs)
  with bs show ?thesis by (simp add: concat_chunks elements_def)
qed


lemma pipeline_unbatch_snd:
  assumes "zeros_paired_pipeline x n bs = Inr ds"
  shows "map snd (unbatch ds) = slices (zeros_column n)"
proof -
  from assms obtain sh where bs: "0 < nat bs" and x: "dims x = nat n # sh"
    and ds: "ds = map stack_pairs (chunks (nat bs) (elements x n))"
    by (auto simp: pipeline_Inr_iff)
  have key: "map snd (zip (slices (fst (stack_pairs c))) (slices (snd (stack_pairs c)))) = map snd c"
    if c: "c \<in> set (chunks (nat bs) (elements x n))" for c
  proof -
    from chunks_elem [OF bs c] have ne: "c \<noteq> []" by simp
    have "\<forall>e\<in>set c. snd e = Tensor [1] [0]"
      using chunks_subset [OF bs c] elements_snd by blast
    then have "\<forall>u\<in>set (map snd c). wf_tensor u \<and> dims u = [1]"
      using wf_zero_row by auto
    with ne have r: "slices (stack (map snd c)) = map snd c"
      by (intro slices_stack) auto
    have l: "length (slices (stack (map fst c))) = length c"
      using ne by (simp add: length_slices_stack)
    from l r show ?thesis
      by (simp add: stack_pairs_def)
  qed
  have "map snd (unbatch ds) =
        concat (map (\<lambda>c. map snd (zip (slices (fst (stack_pairs c))) (slices (snd (stack_pairs c)))))
          (chunks (nat bs) (elements x n)))"
    by (simp add: unbatch_def ds map_concat o_def)
  also have "\<dots> = concat (map (map snd) (chunks (nat bs) (elements x n)))"
    using key by (simp cong: map_cong)
  also have "\<dots> = map snd (concat (chunks (nat bs) (elements x n)))"
    by (simp add: map_concat)
  also have "\<dots> = slices (zeros_column n)"
    using bs x by (simp add: concat_chunks map_snd_elements)
  finally show ?thesis .
qed

lemma concat_map_concat:
  "concat (map f (concat xss)) = concat (map (\<lambda>xs. concat (map f xs)) xss)"
  by (induction xss) auto

lemma flat_stack: "flat (stack ts) = concat (map flat ts)"
  by (cases ts) (simp_all add: stack_def)

lemma pipeline_flat:
  assumes "zeros_paired_pipeline x n bs = Inr ds" and "wf_tensor x"
  shows "concat (map (\<lambda>b. flat (fst b)) ds) = flat x"
proof -
  from assms obtain sh where bs: "0 < nat bs" and x: "dims x = nat n # sh"
    and ds: "ds = map stack_pairs (chunks (nat bs) (elements x n))"
    by (auto simp: pipeline_Inr_iff)
  have "concat (map (\<lambda>b. flat (fst b)) ds) =
        concat (map (\<lambda>c. concat (map (\<lambda>e. flat (fst e)) c)) (chunks (nat bs) (elements x n)))"
    by (simp add: ds o_def stack_pairs_def flat_stack)
  also have "\<dots> = concat (map (\<lambda>e. flat (fst e)) (concat (chunks (nat bs) (elements x n))))"
    by (simp only: concat_map_concat)
  also have "\<dots> = concat (map flat (map fst (elements x n)))"
    using bs by (simp add: concat_chunks o_def)
  also have "\<dots> = concat (map flat (slices x))"
    using x by (simp add: map_fst_elements)
  also have "\<dots> = concat (split_rows (nat n) (prod_list sh) (flat x))"
    using x by (simp add: slices_def o_def)
  also have "\<dots> = flat x"
    using assms(2) x by (intro concat_split_rows) (simp add: wf_tensor_def)
  finally show ?thesis .
qed

subsection \<open>The callback and loadData\<close>

lemma py_call_shape_None: "py_call_shape PyNone sh s = (Inl TypeError, s)"
  by (simp add: py_call_shape_def)

lemma loadData_pipeline:
  "loadData s0 =
     (case py_call_shape (get_X0 (this s0)) (N_train (this s0), dim (this s0)) s0 of
        (Inl e, s1) \<Rightarrow> (Inl e, s1)
      | (Inr x, s1) \<Rightarrow>
     (case zeros_paired_pipeline x (N_train (this s1)) (batch_size (this s1)) of
        Inl e \<Rightarrow> (Inl e, s1)
      | Inr ds \<Rightarrow>
     (case py_call_shape (get_X0 (this s1)) (N_test (this s1), dim (this s1)) s1 of
        (Inl e, s2) \<Rightarrow> (Inl e, s2)
      | (Inr x', s2) \<Rightarrow>
     (case zeros_paired_pipeline x' (N_test (this s2)) (batch_size (this s2)) of
        Inl e \<Rightarrow> (Inl e, s2)
      | Inr ds_test \<Rightarrow> (Inr (ds, ds_test), s2)))))"
  unfolding loadData_def zeros_paired_pipeline_def by (rule refl)

lemma loadData_Inr_iff:
  "loadData s = (Inr (ds, ds_test), s') \<longleftrightarrow>
     (\<exists>ks f x w1 x' w2.
        get_X0 (this s) = PyCallable ks f \<and> ''shape'' \<in> set ks \<and>
        f (N_train (this s), dim (this s)) (sampler s) = (Inr x, w1) \<and>
        zeros_paired_pipeline x (N_train (this s)) (batch_size (this s)) = Inr ds \<and>
        f (N_test (this s), dim (this s)) w1 = (Inr x', w2) \<and>
        zeros_paired_pipeline x' (N_test (this s)) (batch_size (this s)) = Inr ds_test \<and>
        s' = s\<lparr>calls := calls s @ [(N_train (this s), dim (this s)), (N_test (this s), dim (this s))],
               sampler := w2\<rparr>)"
  unfolding loadData_pipeline
  by (auto simp: py_call_shape_def split: pyobj.splits prod.splits sum.splits if_splits)

subsection \<open>Running loadData\<close>

lemma loadData_this: "this (snd (loadData s)) = this s"
  unfolding loadData_pipeline
  by (auto simp: py_call_shape_def split: pyobj.splits prod.splits sum.splits if_splits)



lemma loadData_success_elim:
  assumes "fst (loadData s) = Inr (ds, ds_test)"
  obtains ks f x w1 x' w2 where
    "get_X0 (this s) = PyCallable ks f" and "''shape'' \<in> set ks" and
    "f (N_train (this s), dim (this s)) (sampler s) = (Inr x, w1)" and
    "zeros_paired_pipeline x (N_train (this s)) (batch_size (this s)) = Inr ds" and
    "f (N_test (this s), dim (this s)) w1 = (Inr x', w2)" and
    "zeros_paired_pipeline x' (N_test (this s)) (batch_size (this s)) = Inr ds_test"
proof -
  obtain s' where "loadData s = (Inr (ds, ds_test), s')"
    using assms by (cases "loadData s") auto
  then show ?thesis
    using that by (auto simp: loadData_Inr_iff)
qed

text \<open>
  \<^verbatim>\<open>loadData\<close> returns whenever the sampler returns arrays of the sizes asked for, the
  sizes are not negative and the batch size is positive.
\<close>

lemma loadData_returns:
  assumes "get_X0 (this s) = PyCallable ks f" and "''shape'' \<in> set ks"
    and "f (N_train (this s), dim (this s)) (sampler s) = (Inr x, w1)"
    and "dims x = nat (N_train (this s)) # sh" and "0 \<le> N_train (this s)"
    and "f (N_test (this s), dim (this s)) w1 = (Inr x', w2)"
    and "dims x' = nat (N_test (this s)) # sh'" and "0 \<le> N_test (this s)"
    and "0 < batch_size (this s)"
  shows "\<exists>ds ds_test s'. loadData s = (Inr (ds, ds_test), s')"
  unfolding loadData_Inr_iff pipeline_Inr_iff using assms by auto

text \<open>The loader with \<open>N_train = 3\<close>, \<open>N_test = 5\<close>, \<open>batch_size = 2\<close>, \<open>dim = 2\<close>, run.\<close>

lemma small_loader_fields:
  "N_train (this (start_state small_loader)) = 3"
  "N_test (this (start_state small_loader)) = 5"
  "dim (this (start_state small_loader)) = 2"
  "batch_size (this (start_state small_loader)) = 2"
  "sampler (start_state small_loader) = 0"
  "calls (start_state small_loader) = []"
  "get_X0 (this (start_state small_loader)) = PyCallable [''shape''] counting_sampler"
  by (simp_all add: start_state_def small_loader_def)

lemma small_loader_result:
  "fst (loadData (start_state small_loader)) =
     Inr ([(Tensor [2, 2] [0, 1, 2, 3], Tensor [2, 1] [0, 0]),
           (Tensor [1, 2] [4, 5], Tensor [1, 1] [0])],
          [(Tensor [2, 2] [6, 7, 8, 9], Tensor [2, 1] [0, 0]),
           (Tensor [2, 2] [10, 11, 12, 13], Tensor [2, 1] [0, 0]),
           (Tensor [1, 2] [14, 15], Tensor [1, 1] [0])])"
  by code_simp

subsection \<open>loadData with a callback that holds the loader\<close>

lemma assign_attributes_of: "assign_attributes (attributes_of l) l = l"
  by (simp add: assign_attributes_def attributes_of_def)

lemma py_call_shape_shared_this:
  assumes "leaves_loader g"
  shows "shared_this (snd (py_call_shape_shared g sh s)) = shared_this s"
proof (cases g)
  case PyNone
  then show ?thesis by (simp add: py_call_shape_shared_def)
next
  case (PyCallable ks f)
  with assms have l: "fst (snd (f sh (a, v))) = a" for a v
    by (cases sh) (simp add: leaves_loader_def)
  obtain r a' v' where c: "f sh (attributes_of (shared_this s), shared_sampler s) = (r, (a', v'))"
    by (metis surj_pair)
  with l [of "attributes_of (shared_this s)" "shared_sampler s"]
  have "a' = attributes_of (shared_this s)" by simp
  with PyCallable c show ?thesis
    by (simp add: py_call_shape_shared_def assign_attributes_of)
qed

lemma py_call_shape_shared_calls:
  "py_call_shape_shared g sh s = (Inr x, s') \<Longrightarrow> shared_calls s' = shared_calls s @ [sh]"
  by (auto simp: py_call_shape_shared_def split: pyobj.splits prod.splits if_splits)

lemma loadData_shared_this:
  assumes "leaves_loader (get_X0 (shared_this s))"
  shows "shared_this (snd (loadData_shared s)) = shared_this s"
proof -
  let ?g = "get_X0 (shared_this s)"
  obtain r1 s1 where c1: "py_call_shape_shared ?g (N_train (shared_this s), dim (shared_this s)) s
      = (r1, s1)"
    by (metis surj_pair)
  have t1: "shared_this s1 = shared_this s"
    using py_call_shape_shared_this [OF assms, of "(N_train (shared_this s), dim (shared_this s))" s] c1
    by simp
  obtain r2 s2 where c2: "py_call_shape_shared ?g (N_test (shared_this s), dim (shared_this s)) s1
      = (r2, s2)"
    by (metis surj_pair)
  have t2: "shared_this s2 = shared_this s"
    using py_call_shape_shared_this [OF assms, of "(N_test (shared_this s), dim (shared_this s))" s1] c2 t1
    by simp
  show ?thesis
    unfolding loadData_shared_def using c1 c2 t1 t2
    by (simp split: sum.splits)
qed

lemma loadData_shared_calls:
  assumes "leaves_loader (get_X0 (shared_this s))" and "fst (loadData_shared s) = Inr r"
  shows "shared_calls (snd (loadData_shared s)) =
           shared_calls s @ [(N_train (shared_this s), dim (shared_this s)),
                             (N_test (shared_this s), dim (shared_this s))]"
proof -
  let ?g = "get_X0 (shared_this s)"
  obtain r1 s1 where c1: "py_call_shape_shared ?g (N_train (shared_this s), dim (shared_this s)) s
      = (r1, s1)"
    by (metis surj_pair)
  have t1: "shared_this s1 = shared_this s"
    using py_call_shape_shared_this [OF assms(1), of "(N_train (shared_this s), dim (shared_this s))" s] c1
    by simp
  obtain r2 s2 where c2: "py_call_shape_shared ?g (N_test (shared_this s), dim (shared_this s)) s1
      = (r2, s2)"
    by (metis surj_pair)
  from assms(2) c1 c2 t1 obtain x x' where r: "r1 = Inr x" "r2 = Inr x'" and s': "snd (loadData_shared s) = s2"
    unfolding loadData_shared_def by (auto split: sum.splits)
  from c1 r have "shared_calls s1 = shared_calls s @ [(N_train (shared_this s), dim (shared_this s))]"
    by (auto dest: py_call_shape_shared_calls)
  moreover from c2 r have "shared_calls s2 = shared_calls s1 @ [(N_test (shared_this s), dim (shared_this s))]"
    by (auto dest: py_call_shape_shared_calls)
  ultimately show ?thesis using s' by simp
qed

lemma leaves_loader_share_callback: "leaves_loader (share_callback g)"
  by (cases g) (simp_all add: leaves_loader_def share_callback_def split: prod.splits)

lemma share_state_fields:
  "N_train (shared_this (share_state s)) = N_train (this s)"
  "N_test (shared_this (share_state s)) = N_test (this s)"
  "batch_size (shared_this (share_state s)) = batch_size (this s)"
  "dim (shared_this (share_state s)) = dim (this s)"
  "get_X0 (shared_this (share_state s)) = share_callback (get_X0 (this s))"
  by (simp_all add: share_state_def share_loader_def)

text \<open>
  On a callable without a reference to the loader the two models of \<^verbatim>\<open>loadData\<close>
  agree.
\<close>

lemma py_call_shape_share:
  "py_call_shape_shared (share_callback g) sh (share_state s) =
     (fst (py_call_shape g sh s), share_state (snd (py_call_shape g sh s)))"
  by (cases g)
    (auto simp: py_call_shape_shared_def py_call_shape_def share_callback_def share_state_def
      assign_attributes_of split: prod.splits)

lemma loadData_share:
  "loadData_shared (share_state s) = (fst (loadData s), share_state (snd (loadData s)))"
proof -
  obtain r1 s1 where c1: "py_call_shape (get_X0 (this s)) (N_train (this s), dim (this s)) s = (r1, s1)"
    by (metis surj_pair)
  obtain r2 s2 where c2: "py_call_shape (get_X0 (this s1)) (N_test (this s1), dim (this s1)) s1 = (r2, s2)"
    by (metis surj_pair)
  show ?thesis
    unfolding loadData_shared_def loadData_def
    using c1 c2
    by (simp add: share_state_fields py_call_shape_share split: sum.splits)
qed

lemma small_loader_shared_twice:
  "\<not> isl (fst (loadData_shared (snd (loadData_shared (share_state (start_state small_loader))))))"
  "shared_calls (snd (loadData_shared (share_state (start_state small_loader)))) = [(3, 2), (5, 2)]"
  by code_simp+

section \<open>The claims\<close>

subsection \<open>The constructor\<close>

text \<open>
  Claim C3. The constructor stores each of its arguments unchanged: \<^verbatim>\<open>N_train\<close>,
  \<^verbatim>\<open>N_test\<close> and \<^verbatim>\<open>batch_size\<close> go to the base-class constructor in this order
  (the base part of the new object is what the base-class constructor returns for
  them), and the fields \<^verbatim>\<open>get_X0\<close> and \<^verbatim>\<open>dim\<close> hold the given callback and dimension.
\<close>

theorem init_stores_arguments:
  "DataLoaderFromMap_init (Some nt) (Some ns) (Some bs) (Some g) (Some d) =
     Inr \<lparr>N_train = nt, N_test = ns, batch_size = bs, get_X0 = g, dim = d\<rparr> \<and>
   DatasetLoader_init nt ns bs =
     Inr (DatasetLoader.truncate
            \<lparr>N_train = nt, N_test = ns, batch_size = bs, get_X0 = g, dim = d\<rparr>)"
  by (simp add: DataLoaderFromMap_init_def DatasetLoader_init_def or_default_def
      DatasetLoader.extend_def DatasetLoader.truncate_def)

text \<open>
  Claim C4. The constructor validates nothing and never raises: whatever the arguments
  are (given or left out, \<^verbatim>\<open>get_X0\<close> being \<^verbatim>\<open>None\<close> or a callable, the integers
  being zero or negative), it returns an object, and each field holds the value given
  for it (its default when the argument was left out).
\<close>

theorem init_never_raises:
  "\<exists>self. DataLoaderFromMap_init a b c g d = Inr self \<and>
     N_train self = or_default a 100 \<and> N_test self = or_default b 1000 \<and>
     batch_size self = or_default c 512 \<and> get_X0 self = or_default g PyNone \<and>
     dim self = or_default d 1"
  by (simp add: DataLoaderFromMap_init_def DatasetLoader_init_def DatasetLoader.extend_def)

text \<open>
  Claim C10. A loader constructed with no arguments has \<^verbatim>\<open>N_train = 100\<close>,
  \<^verbatim>\<open>N_test = 1000\<close>, \<^verbatim>\<open>batch_size = 512\<close>, \<^verbatim>\<open>dim = 1\<close> and \<^verbatim>\<open>get_X0 = None\<close>.
\<close>

theorem init_defaults:
  "DataLoaderFromMap_init None None None None None =
     Inr \<lparr>N_train = 100, N_test = 1000, batch_size = 512, get_X0 = PyNone, dim = 1\<rparr>"
  by (simp add: DataLoaderFromMap_init_def DatasetLoader_init_def or_default_def
      DatasetLoader.extend_def)

subsection \<open>The method loadData\<close>







text \<open>
  Claim C5. In both pipelines that \<^verbatim>\<open>loadData\<close> returns, the component paired with the
  sampled array is the all-zeros array of shape \<open>(N, 1)\<close>: \<^verbatim>\<open>tf.zeros\<close> returns it for
  \<open>N = N_train\<close> and for \<open>N = N_test\<close>, the second components of the elements of the
  training pipeline are \<open>N_train\<close> rows of one zero each, those of the test pipeline
  \<open>N_test\<close> such rows, and every batch holds zeros in one column; \<open>dim\<close> plays no part.
\<close>

theorem loadData_zeros_component:
  assumes "fst (loadData s) = Inr (ds, ds_test)"
  shows "tf_zeros [N_train (this s), 1] =
           Inr (Tensor [nat (N_train (this s)), 1] (replicate (nat (N_train (this s))) (0::real))) \<and>
         tf_zeros [N_test (this s), 1] =
           Inr (Tensor [nat (N_test (this s)), 1] (replicate (nat (N_test (this s))) (0::real))) \<and>
         0 \<le> N_train (this s) \<and> 0 \<le> N_test (this s) \<and>
         map snd (unbatch ds) = replicate (nat (N_train (this s))) (Tensor [1] [0]) \<and>
         map snd (unbatch ds_test) = replicate (nat (N_test (this s))) (Tensor [1] [0]) \<and>
         (\<forall>b\<in>set ds \<union> set ds_test. \<exists>k. snd b = Tensor [k, 1] (replicate k 0))"
proof -
  from assms obtain x x' where
    p: "zeros_paired_pipeline x (N_train (this s)) (batch_size (this s)) = Inr ds" and
    p': "zeros_paired_pipeline x' (N_test (this s)) (batch_size (this s)) = Inr ds_test"
    by (rule loadData_success_elim)
  from p p' have n: "0 \<le> N_train (this s)" "0 \<le> N_test (this s)"
    by (simp_all add: pipeline_Inr_iff)
  then have z: "tf_zeros [N_train (this s), 1] =
        Inr (Tensor [nat (N_train (this s)), 1] (replicate (nat (N_train (this s))) (0::real)))"
      "tf_zeros [N_test (this s), 1] =
        Inr (Tensor [nat (N_test (this s)), 1] (replicate (nat (N_test (this s))) (0::real)))"
    by (simp_all add: tf_zeros_column zeros_column_def)
  have u: "map snd (unbatch ds) = replicate (nat (N_train (this s))) (Tensor [1] [0])"
    using pipeline_unbatch_snd [OF p] by (simp only: slices_zeros_column)
  have u': "map snd (unbatch ds_test) = replicate (nat (N_test (this s))) (Tensor [1] [0])"
    using pipeline_unbatch_snd [OF p'] by (simp only: slices_zeros_column)
  have b: "\<exists>k. snd b = Tensor [k, 1] (replicate k 0)" if "b \<in> set ds \<union> set ds_test" for b
    using that pipeline_batch [OF p, of b] pipeline_batch [OF p', of b] by auto
  from z n u u' b show ?thesis by blast
qed

theorem loadData_zeros_component_witness:
  "fst (loadData (start_state small_loader)) =
     Inr ([(Tensor [2, 2] [0, 1, 2, 3], Tensor [2, 1] [0, 0]),
           (Tensor [1, 2] [4, 5], Tensor [1, 1] [0])],
          [(Tensor [2, 2] [6, 7, 8, 9], Tensor [2, 1] [0, 0]),
           (Tensor [2, 2] [10, 11, 12, 13], Tensor [2, 1] [0, 0]),
           (Tensor [1, 2] [14, 15], Tensor [1, 1] [0])]) \<and>
   map snd (unbatch [(Tensor [2, 2] [0, 1, 2, 3::int], Tensor [2, 1] [0, 0]),
                     (Tensor [1, 2] [4, 5], Tensor [1, 1] [0])]) =
     replicate (nat 3) (Tensor [1] [0::real])"
proof -
  from loadData_zeros_component [OF small_loader_result, unfolded small_loader_fields]
  have "map snd (unbatch [(Tensor [2, 2] [0, 1, 2, 3::int], Tensor [2, 1] [0, 0]),
                     (Tensor [1, 2] [4, 5], Tensor [1, 1] [0])]) =
     replicate (nat 3) (Tensor [1] [0::real])"
    by blast
  with small_loader_result show ?thesis by blast
qed



text \<open>
  Claim C7. The values in the pipelines are the arrays the sampler returned and the
  zeros, unmodified: the elements of the training pipeline are the slices of the array
  returned for \<open>(N_train, dim)\<close>, in their order, paired with the rows of zeros, the
  entries of its batches are the entries of that array in their order, and likewise
  for the test pipeline; nothing is transformed, filtered or dropped.
\<close>

theorem loadData_passes_samples_through:
  assumes "fst (loadData s) = Inr (ds, ds_test)"
    and "get_X0 (this s) = PyCallable ks f"
    and "f (N_train (this s), dim (this s)) (sampler s) = (Inr x, w1)"
    and "f (N_test (this s), dim (this s)) w1 = (Inr x', w2)"
    and "wf_tensor x" and "wf_tensor x'"
  shows "unbatch ds = zip (slices x) (slices (zeros_column (N_train (this s)))) \<and>
         unbatch ds_test = zip (slices x') (slices (zeros_column (N_test (this s)))) \<and>
         map fst (unbatch ds) = slices x \<and> map fst (unbatch ds_test) = slices x' \<and>
         concat (map (\<lambda>b. flat (fst b)) ds) = flat x \<and>
         concat (map (\<lambda>b. flat (fst b)) ds_test) = flat x'"
proof -
  from assms(1) obtain ks0 f0 y v1 y' v2 where
    g: "get_X0 (this s) = PyCallable ks0 f0" and
    c: "f0 (N_train (this s), dim (this s)) (sampler s) = (Inr y, v1)" and
    p: "zeros_paired_pipeline y (N_train (this s)) (batch_size (this s)) = Inr ds" and
    c': "f0 (N_test (this s), dim (this s)) v1 = (Inr y', v2)" and
    p': "zeros_paired_pipeline y' (N_test (this s)) (batch_size (this s)) = Inr ds_test"
    by (rule loadData_success_elim)
  from g assms(2) have "f0 = f" by simp
  with c assms(3) have y: "y = x" and "v1 = w1" by simp_all
  with c' assms(4) \<open>f0 = f\<close> have y': "y' = x'" by simp
  note q = p [unfolded y] and q' = p' [unfolded y']
  from q obtain sh where d: "dims x = nat (N_train (this s)) # sh"
    by (auto simp: pipeline_Inr_iff)
  from q' obtain sh' where d': "dims x' = nat (N_test (this s)) # sh'"
    by (auto simp: pipeline_Inr_iff)
  have u: "unbatch ds = zip (slices x) (slices (zeros_column (N_train (this s))))"
    using q assms(5) by (rule pipeline_unbatch)
  have u': "unbatch ds_test = zip (slices x') (slices (zeros_column (N_test (this s))))"
    using q' assms(6) by (rule pipeline_unbatch)
  have m: "map fst (unbatch ds) = slices x"
    using map_fst_elements [OF d] by (simp only: u elements_def)
  have m': "map fst (unbatch ds_test) = slices x'"
    using map_fst_elements [OF d'] by (simp only: u' elements_def)
  have fl: "concat (map (\<lambda>b. flat (fst b)) ds) = flat x"
    using q assms(5) by (rule pipeline_flat)
  have fl': "concat (map (\<lambda>b. flat (fst b)) ds_test) = flat x'"
    using q' assms(6) by (rule pipeline_flat)
  from u u' m m' fl fl' show ?thesis by simp
qed

theorem loadData_passes_samples_through_witness:
  "fst (loadData (start_state small_loader)) =
     Inr ([(Tensor [2, 2] [0, 1, 2, 3], Tensor [2, 1] [0, 0]),
           (Tensor [1, 2] [4, 5], Tensor [1, 1] [0])],
          [(Tensor [2, 2] [6, 7, 8, 9], Tensor [2, 1] [0, 0]),
           (Tensor [2, 2] [10, 11, 12, 13], Tensor [2, 1] [0, 0]),
           (Tensor [1, 2] [14, 15], Tensor [1, 1] [0])]) \<and>
   counting_sampler (3, 2) 0 = (Inr (Tensor [3, 2] [0, 1, 2, 3, 4, 5]), 6) \<and>
   counting_sampler (5, 2) 6 = (Inr (Tensor [5, 2] [6, 7, 8, 9, 10, 11, 12, 13, 14, 15]), 16) \<and>
   wf_tensor (Tensor [3, 2] [0, 1, 2, 3, 4, 5::int]) \<and>
   wf_tensor (Tensor [5, 2] [6, 7, 8, 9, 10, 11, 12, 13, 14, 15::int]) \<and>
   map fst (unbatch [(Tensor [2, 2] [0, 1, 2, 3::int], Tensor [2, 1] [0, 0::real]),
                     (Tensor [1, 2] [4, 5], Tensor [1, 1] [0])]) =
     slices (Tensor [3, 2] [0, 1, 2, 3, 4, 5])"
proof -
  let ?s = "start_state small_loader"
  have c1: "counting_sampler (N_train (this ?s), dim (this ?s)) (sampler ?s) =
      (Inr (Tensor [3, 2] [0, 1, 2, 3, 4, 5]), 6)"
    by code_simp
  have c2: "counting_sampler (N_test (this ?s), dim (this ?s)) 6 =
      (Inr (Tensor [5, 2] [6, 7, 8, 9, 10, 11, 12, 13, 14, 15]), 16)"
    by code_simp
  have w1: "wf_tensor (Tensor [3, 2] [0, 1, 2, 3, 4, 5::int])"
    by (simp add: wf_tensor_def)
  have w2: "wf_tensor (Tensor [5, 2] [6, 7, 8, 9, 10, 11, 12, 13, 14, 15::int])"
    by (simp add: wf_tensor_def)
  from loadData_passes_samples_through
    [OF small_loader_result small_loader_fields(7) c1 c2 w1 w2]
  have "map fst (unbatch [(Tensor [2, 2] [0, 1, 2, 3::int], Tensor [2, 1] [0, 0::real]),
                     (Tensor [1, 2] [4, 5], Tensor [1, 1] [0])]) =
     slices (Tensor [3, 2] [0, 1, 2, 3, 4, 5])"
    by blast
  with small_loader_result c1 [unfolded small_loader_fields] c2 [unfolded small_loader_fields]
    w1 w2 show ?thesis
    by blast
qed

text \<open>
  Claim C8, as amended. \<^verbatim>\<open>loadData\<close> itself assigns to no field of the loader: when
  the callback leaves the loader's fields as they are, the loader after a call of
  \<^verbatim>\<open>loadData\<close>, returning or raising, is the loader before it, and a second call
  that returns has invoked the callback again, with the same two shapes as the first:
  nothing is cached. A callback that holds the loader and assigns its fields changes
  them.
\<close>

theorem loadData_shared_keeps_loader:
  assumes "leaves_loader (get_X0 (shared_this s))"
  shows "shared_this (snd (loadData_shared s)) = shared_this s \<and>
    ((\<exists>r. fst (loadData_shared (snd (loadData_shared s))) = Inr r) \<longrightarrow>
      shared_calls (snd (loadData_shared (snd (loadData_shared s)))) =
        shared_calls (snd (loadData_shared s)) @
          [(N_train (shared_this s), dim (shared_this s)),
           (N_test (shared_this s), dim (shared_this s))])"
proof (intro conjI impI)
  show t: "shared_this (snd (loadData_shared s)) = shared_this s"
    using assms by (rule loadData_shared_this)
  assume "\<exists>r. fst (loadData_shared (snd (loadData_shared s))) = Inr r"
  then obtain r where r: "fst (loadData_shared (snd (loadData_shared s))) = Inr r" ..
  have "leaves_loader (get_X0 (shared_this (snd (loadData_shared s))))"
    using assms by (simp only: t)
  from loadData_shared_calls [OF this r]
  show "shared_calls (snd (loadData_shared (snd (loadData_shared s)))) =
        shared_calls (snd (loadData_shared s)) @
          [(N_train (shared_this s), dim (shared_this s)),
           (N_test (shared_this s), dim (shared_this s))]"
    by (simp only: t)
qed

theorem loadData_shared_keeps_loader_witness:
  "leaves_loader (get_X0 (shared_this (share_state (start_state small_loader)))) \<and>
   \<not> isl (fst (loadData_shared (snd (loadData_shared (share_state (start_state small_loader)))))) \<and>
   shared_calls (snd (loadData_shared (snd (loadData_shared (share_state (start_state small_loader))))))
     = [(3, 2), (5, 2), (3, 2), (5, 2)]"
proof -
  let ?s = "share_state (start_state small_loader)"
  have l: "leaves_loader (get_X0 (shared_this ?s))"
    by (simp only: share_state_fields leaves_loader_share_callback)
  have "\<exists>r. fst (loadData_shared (snd (loadData_shared ?s))) = Inr r"
    using small_loader_shared_twice(1)
    by (cases "fst (loadData_shared (snd (loadData_shared ?s)))") auto
  with loadData_shared_keeps_loader [OF l]
  have "shared_calls (snd (loadData_shared (snd (loadData_shared ?s)))) =
      shared_calls (snd (loadData_shared ?s)) @
        [(N_train (shared_this ?s), dim (shared_this ?s)),
         (N_test (shared_this ?s), dim (shared_this ?s))]"
    by blast
  then have "shared_calls (snd (loadData_shared (snd (loadData_shared ?s)))) =
      [(3, 2), (5, 2), (3, 2), (5, 2)]"
    by (simp add: small_loader_shared_twice(2) share_state_fields small_loader_fields)
  with l small_loader_shared_twice(1) show ?thesis by blast
qed

text \<open>
  With a callback that sets the loader's \<^verbatim>\<open>N_test\<close> to 4, the call returns, the
  field \<^verbatim>\<open>N_test\<close> has gone from 5 to 4, and the second shape passed was \<open>(4, 2)\<close>.
\<close>

theorem loadData_shared_counterexample:
  "N_test (shared_this (shared_start fixing_loader)) = 5 \<and>
   fst (loadData_shared (shared_start fixing_loader)) =
     Inr ([(Tensor [2, 2] [0, 1, 2, 3], Tensor [2, 1] [0, 0]),
           (Tensor [1, 2] [4, 5], Tensor [1, 1] [0])],
          [(Tensor [2, 2] [6, 7, 8, 9], Tensor [2, 1] [0, 0]),
           (Tensor [2, 2] [10, 11, 12, 13], Tensor [2, 1] [0, 0])]) \<and>
   N_test (shared_this (snd (loadData_shared (shared_start fixing_loader)))) = 4 \<and>
   shared_calls (snd (loadData_shared (shared_start fixing_loader))) = [(3, 2), (4, 2)]"
  by code_simp

text \<open>
  Claim C9. With \<^verbatim>\<open>get_X0\<close> left out, the construction succeeds and the field holds
  \<^verbatim>\<open>None\<close>; with \<^verbatim>\<open>None\<close> in the field a call of \<^verbatim>\<open>loadData\<close> raises a
  \<^verbatim>\<open>TypeError\<close> and leaves the state as it was, so every later call raises too; and
  when \<^verbatim>\<open>loadData\<close> returns, \<^verbatim>\<open>get_X0\<close> is a callable accepting the keyword
  argument \<^verbatim>\<open>shape\<close>.
\<close>

theorem loadData_needs_callable:
  fixes s :: "('w, 'a) state"
  shows "(\<exists>self. (DataLoaderFromMap_init a b c None d :: error + ('w, 'a) DataLoaderFromMap)
              = Inr self \<and> get_X0 self = PyNone) \<and>
    (get_X0 (this s) = PyNone \<longrightarrow> loadData s = (Inl TypeError, s)) \<and>
    ((\<exists>r. fst (loadData s) = Inr r) \<longrightarrow>
       (\<exists>ks f. get_X0 (this s) = PyCallable ks f \<and> ''shape'' \<in> set ks))"
proof (intro conjI impI)
  show "\<exists>self. (DataLoaderFromMap_init a b c None d :: error + ('w, 'a) DataLoaderFromMap)
              = Inr self \<and> get_X0 self = PyNone"
    by (simp add: DataLoaderFromMap_init_def DatasetLoader_init_def DatasetLoader.extend_def
        or_default_def)
  show "loadData s = (Inl TypeError, s)" if "get_X0 (this s) = PyNone"
    unfolding loadData_pipeline using that by (simp add: py_call_shape_None)
  show "\<exists>ks f. get_X0 (this s) = PyCallable ks f \<and> ''shape'' \<in> set ks"
    if "\<exists>r. fst (loadData s) = Inr r"
  proof -
    from that obtain ds ds_test where "fst (loadData s) = Inr (ds, ds_test)"
      by auto
    then show ?thesis
      by (rule loadData_success_elim) auto
  qed
qed

theorem loadData_needs_callable_witness:
  "DataLoaderFromMap_init None None None None None = Inr default_loader \<and>
   get_X0 (this (start_state default_loader)) = PyNone \<and>
   loadData (start_state default_loader) = (Inl TypeError, start_state default_loader)"
proof -
  have g: "get_X0 (this (start_state default_loader)) = PyNone"
    by (simp add: start_state_def default_loader_def)
  have i: "DataLoaderFromMap_init None None None None None = Inr default_loader"
    by (simp add: DataLoaderFromMap_init_def DatasetLoader_init_def DatasetLoader.extend_def
        or_default_def default_loader_def)
  from loadData_needs_callable [of _ _ _ _ "start_state default_loader"] g i
  show ?thesis by simp
qed

end
